theory Spec2Isabelle
  imports Complex_Main
begin

section \<open>Rectangles (the part of pygame.Rect the program uses)\<close>

text \<open>
  Every entity carries a \<^verbatim>\<open>pygame.Rect\<close>: four integers, the left and top edge and
  the width and height. The right edge is \<^verbatim>\<open>left + width\<close>, the bottom edge is
  \<^verbatim>\<open>top + height\<close>.
\<close>

record Rect =
  rect_left :: int
  rect_top :: int
  rect_width :: int
  rect_height :: int

definition rect_right :: "Rect \<Rightarrow> int" where
  "rect_right r = rect_left r + rect_width r"

definition rect_bottom :: "Rect \<Rightarrow> int" where
  "rect_bottom r = rect_top r + rect_height r"

text \<open>\<^verbatim>\<open>Rect.move_ip(dx, dy)\<close> with integer offsets: the box is shifted, its size kept.\<close>

definition move_ip :: "Rect \<Rightarrow> int \<Rightarrow> int \<Rightarrow> Rect" where
  "move_ip r dx dy = r\<lparr>rect_left := rect_left r + dx, rect_top := rect_top r + dy\<rparr>"

text \<open>
  \<^verbatim>\<open>A.colliderect(B)\<close>: a rectangle of width or height zero collides with nothing;
  otherwise the two boxes must overlap strictly on both axes (edges that only touch do
  not collide). The library normalises negative sizes with min and max.
\<close>

definition colliderect :: "Rect \<Rightarrow> Rect \<Rightarrow> bool" where
  "colliderect A B =
     (if rect_width A = 0 \<or> rect_height A = 0 \<or> rect_width B = 0 \<or> rect_height B = 0
      then False
      else min (rect_left A) (rect_right A) < max (rect_left B) (rect_right B) \<and>
           min (rect_top A) (rect_bottom A) < max (rect_top B) (rect_bottom B) \<and>
           max (rect_left A) (rect_right A) > min (rect_left B) (rect_right B) \<and>
           max (rect_top A) (rect_bottom A) > min (rect_top B) (rect_bottom B))"

text \<open>
  A Python float handed to \<^verbatim>\<open>move_ip\<close> is converted to a C int, which truncates
  towards zero. Floats are idealised as rationals here.
\<close>

definition int_of_float :: "rat \<Rightarrow> int" where
  "int_of_float v = (if v < 0 then ceiling v else floor v)"

section \<open>Entities and their animation (level\_objects.py)\<close>

text \<open>The five classes differ only in the class attribute \<^verbatim>\<open>sprite_filenames\<close>.\<close>

datatype kind = Block | LevelExit | Fire | BlueFire | Player

fun sprite_filenames :: "kind \<Rightarrow> string list" where
  "sprite_filenames Block = [''sprites/block.png'']"
| "sprite_filenames LevelExit = [''sprites/door.png'']"
| "sprite_filenames Fire =
     [''sprites/fire.png'', ''sprites/fire1.png'', ''sprites/fire2.png'', ''sprites/fire3.png'',
      ''sprites/fire4.png'', ''sprites/fire5.png'', ''sprites/fire6.png'']"
| "sprite_filenames BlueFire =
     [''sprites/bluefire.png'', ''sprites/bluefire1.png'', ''sprites/bluefire2.png'',
      ''sprites/bluefire3.png'', ''sprites/bluefire4.png'', ''sprites/bluefire5.png'',
      ''sprites/bluefire6.png'']"
| "sprite_filenames Player =
     [''sprites/player.png'', ''sprites/player1.png'', ''sprites/player2.png'',
      ''sprites/player3.png'']"

text \<open>
  A loaded image is represented by the file it came from and whether it has been
  mirrored (\<^verbatim>\<open>pygame.transform.flip(sprite, True, False)\<close>).
\<close>

datatype sprite = Sprite string bool

fun flip :: "sprite \<Rightarrow> sprite" where
  "flip (Sprite f m) = Sprite f (\<not> m)"

fun sprite_file :: "sprite \<Rightarrow> string" where
  "sprite_file (Sprite f m) = f"

definition ANIMATION_SPEED :: int where
  "ANIMATION_SPEED = 150"

record base_object =
  obj_kind :: kind
  sprite_size :: int
  sprites :: "sprite list"
  sprite_animation_index :: int
  next_animation_time :: int
  surf :: sprite
  rect :: Rect

text \<open>
  What the constructors read from outside the program: the clock
  (\<^verbatim>\<open>pygame.time.get_ticks()\<close>), the random jitter (\<^verbatim>\<open>random.randint(0, 500)\<close>)
  and the pixel size of an image file.
\<close>

record outside =
  get_ticks :: int
  randint :: int
  image_size :: "string \<Rightarrow> int \<times> int"

definition load_sprites :: "kind \<Rightarrow> sprite list" where
  "load_sprites k = map (\<lambda>filename. Sprite filename False) (sprite_filenames k)"

text \<open>
  \<^verbatim>\<open>BaseObject.__init__\<close>. The first sprite exists since every class lists at least
  one file; the box takes the size of that image and is placed at \<open>(x, y)\<close>.
\<close>

definition BaseObject_init :: "outside \<Rightarrow> kind \<Rightarrow> int \<Rightarrow> int \<Rightarrow> int \<Rightarrow> base_object" where
  "BaseObject_init ext k x y sz =
     (let sps = load_sprites k; s0 = sps ! 0 in
      \<lparr>obj_kind = k,
       sprite_size = sz,
       sprites = sps,
       sprite_animation_index = 0,
       next_animation_time = get_ticks ext + randint ext,
       surf = s0,
       rect = \<lparr>rect_left = x, rect_top = y,
               rect_width = fst (image_size ext (sprite_file s0)),
               rect_height = snd (image_size ext (sprite_file s0))\<rparr>\<rparr>)"

text \<open>
  \<^verbatim>\<open>BaseObject.animate\<close>, with the value of \<^verbatim>\<open>pygame.time.get_ticks()\<close> as an
  argument. Python's \<^verbatim>\<open>%\<close> with a positive modulus is never negative, as \<open>mod\<close>
  on \<open>int\<close>.
\<close>

definition animate :: "int \<Rightarrow> 'a base_object_scheme \<Rightarrow> 'a base_object_scheme" where
  "animate ticks obj =
     (if length (sprites obj) > 1 \<and> ticks - next_animation_time obj > 0 then
        (let i = (sprite_animation_index obj + 1) mod int (length (sprites obj)) in
         obj\<lparr>sprite_animation_index := i,
             surf := sprites obj ! nat i,
             next_animation_time := next_animation_time obj + ANIMATION_SPEED\<rparr>)
      else obj)"

section \<open>The player (level\_objects.py)\<close>

definition FALL_ACCELERATION :: rat where
  "FALL_ACCELERATION = 3 / 10"

definition MOVE_SPEED :: int where
  "MOVE_SPEED = 2"

definition JUMP_SPEED :: int where
  "JUMP_SPEED = 10"

record player = base_object +
  sprites_right :: "sprite list"
  sprites_left :: "sprite list"
  bottom_collision :: bool
  horizontal_speed :: int
  vertical_speed :: rat

text \<open>\<^verbatim>\<open>Player.__init__\<close> with the overridden \<^verbatim>\<open>_load_sprites\<close>.\<close>

definition Player_init :: "outside \<Rightarrow> int \<Rightarrow> int \<Rightarrow> int \<Rightarrow> player" where
  "Player_init ext x y sz =
     base_object.extend (BaseObject_init ext Player x y sz)
       \<lparr>sprites_right = load_sprites Player,
        sprites_left = map flip (load_sprites Player),
        bottom_collision = False,
        horizontal_speed = 0,
        vertical_speed = 0\<rparr>"

record pressed_keys =
  K_UP :: bool
  K_LEFT :: bool
  K_RIGHT :: bool

text \<open>The body of the first loop of \<^verbatim>\<open>_movement_with_collision\<close>, for one object.\<close>

definition horizontal_step :: "base_object \<Rightarrow> player \<Rightarrow> player" where
  "horizontal_step level_object p =
     (if colliderect (rect level_object) (rect p) then
        (if horizontal_speed p > 0 \<and> rect_right (rect p) \<ge> rect_left (rect level_object) then
           p\<lparr>horizontal_speed := 0,
             rect := move_ip (rect p) (rect_left (rect level_object) - rect_right (rect p)) 0\<rparr>
         else if horizontal_speed p < 0 \<and> rect_left (rect p) \<le> rect_right (rect level_object) then
           p\<lparr>horizontal_speed := 0,
             rect := move_ip (rect p) (rect_right (rect level_object) - rect_left (rect p)) 0\<rparr>
         else p)
      else p)"

text \<open>The body of the second loop, for one object.\<close>

definition vertical_step :: "base_object \<Rightarrow> player \<Rightarrow> player" where
  "vertical_step level_object p =
     (if colliderect (rect level_object) (rect p) then
        (if vertical_speed p > 0 \<and> rect_bottom (rect p) > rect_top (rect level_object) then
           p\<lparr>vertical_speed := 0,
             bottom_collision := True,
             rect := move_ip (rect p) 0 (rect_top (rect level_object) - rect_bottom (rect p))\<rparr>
         else if vertical_speed p < 0 \<and> rect_top (rect p) \<le> rect_bottom (rect level_object) then
           p\<lparr>vertical_speed := 0,
             rect := move_ip (rect p) 0 (rect_bottom (rect level_object) - rect_top (rect p))\<rparr>
         else p)
      else p)"

text \<open>
  The horizontal pass: the box is moved by the horizontal speed, then every object is
  visited in the group's iteration order (a group iterates in insertion order).
\<close>

definition horizontal_pass :: "base_object list \<Rightarrow> player \<Rightarrow> player" where
  "horizontal_pass level_objects p =
     fold horizontal_step level_objects
       (p\<lparr>rect := move_ip (rect p) (horizontal_speed p) 0\<rparr>)"

text \<open>The vertical pass: the box is moved by the truncated vertical speed first.\<close>

definition vertical_pass :: "base_object list \<Rightarrow> player \<Rightarrow> player" where
  "vertical_pass level_objects p =
     fold vertical_step level_objects
       (p\<lparr>rect := move_ip (rect p) 0 (int_of_float (vertical_speed p))\<rparr>)"

definition movement_with_collision :: "base_object list \<Rightarrow> player \<Rightarrow> player" where
  "movement_with_collision level_objects p =
     vertical_pass level_objects
       (horizontal_pass level_objects (p\<lparr>bottom_collision := False\<rparr>))"

text \<open>\<^verbatim>\<open>Player.update\<close>.\<close>

definition update :: "pressed_keys \<Rightarrow> base_object list \<Rightarrow> player \<Rightarrow> player" where
  "update keys level_objects p =
     (let p1 = p\<lparr>horizontal_speed := 0\<rparr>;
          p2 = (if K_UP keys \<and> bottom_collision p1
                then p1\<lparr>vertical_speed := - of_int JUMP_SPEED\<rparr> else p1);
          p3 = (if K_LEFT keys
                then p2\<lparr>sprites := sprites_left p2, horizontal_speed := - MOVE_SPEED\<rparr> else p2);
          p4 = (if K_RIGHT keys
                then p3\<lparr>sprites := sprites_right p3, horizontal_speed := MOVE_SPEED\<rparr> else p3);
          p5 = movement_with_collision level_objects p4
      in if \<not> bottom_collision p5
         then p5\<lparr>vertical_speed := vertical_speed p5 + FALL_ACCELERATION\<rparr> else p5)"

section \<open>Levels (levels.py)\<close>

datatype error = ValueError string | AttributeError string

text \<open>
  A sprite group iterates in insertion order, so a group is a list. The group
  \<^verbatim>\<open>all_objects\<close> holds the player next to the other entities.
\<close>

record level =
  name :: string
  level_sprite_size :: int
  player :: "player option"
  all_objects :: "(player + base_object) list"
  safe_objects :: "base_object list"
  traps :: "base_object list"
  exits :: "base_object list"

text \<open>
  The body of the inner loop of \<^verbatim>\<open>load_map\<close> for the cell in row \<open>row_num\<close> and
  column \<open>column_num\<close>: five independent tests of the character, and the
  \<^verbatim>\<open>ValueError\<close> for a second player. \<open>ext\<close> is what the constructor of this cell's
  entity reads from outside.
\<close>

definition load_cell :: "outside \<Rightarrow> nat \<Rightarrow> nat \<Rightarrow> char \<Rightarrow> level \<Rightarrow> error + level" where
  "load_cell ext row_num column_num cell lv =
     (let x = int column_num * level_sprite_size lv;
          y = int row_num * level_sprite_size lv;
          lv1 = (if cell = CHR ''B''
                 then lv\<lparr>safe_objects :=
                        safe_objects lv @ [BaseObject_init ext Block x y (level_sprite_size lv)]\<rparr>
                 else lv);
          lv2 = (if cell = CHR ''T''
                 then lv1\<lparr>traps := traps lv1 @ [BaseObject_init ext Fire x y (level_sprite_size lv)]\<rparr>
                 else lv1);
          lv3 = (if cell = CHR ''t''
                 then lv2\<lparr>traps :=
                        traps lv2 @ [BaseObject_init ext BlueFire x y (level_sprite_size lv)]\<rparr>
                 else lv2);
          lv4 = (if cell = CHR ''E''
                 then lv3\<lparr>exits :=
                        exits lv3 @ [BaseObject_init ext LevelExit x y (level_sprite_size lv)]\<rparr>
                 else lv3)
      in if cell = CHR ''P'' then
           (if player lv4 \<noteq> None
            then Inl (ValueError
                   ''You can have only one player on the level. Please check your map.'')
            else Inr (lv4\<lparr>player := Some (Player_init ext x y (level_sprite_size lv))\<rparr>))
         else Inr lv4)"

text \<open>The inner loop, over the cells of one row from column \<open>column_num\<close> on.\<close>

fun load_row :: "(nat \<Rightarrow> nat \<Rightarrow> outside) \<Rightarrow> nat \<Rightarrow> nat \<Rightarrow> char list \<Rightarrow> level \<Rightarrow> error + level"
  where
  "load_row ext row_num column_num [] lv = Inr lv"
| "load_row ext row_num column_num (cell # row) lv =
     (case load_cell (ext row_num column_num) row_num column_num cell lv of
        Inl e \<Rightarrow> Inl e
      | Inr lv' \<Rightarrow> load_row ext row_num (Suc column_num) row lv')"

text \<open>The outer loop, over the rows from row \<open>row_num\<close> on.\<close>

fun load_rows :: "(nat \<Rightarrow> nat \<Rightarrow> outside) \<Rightarrow> nat \<Rightarrow> char list list \<Rightarrow> level \<Rightarrow> error + level"
  where
  "load_rows ext row_num [] lv = Inr lv"
| "load_rows ext row_num (row # level_map) lv =
     (case load_row ext row_num 0 row lv of
        Inl e \<Rightarrow> Inl e
      | Inr lv' \<Rightarrow> load_rows ext (Suc row_num) level_map lv')"

text \<open>
  \<^verbatim>\<open>Group.add\<close> applied to the player reference. For an argument that is neither a
  sprite nor iterable the library goes on to call the argument's \<^verbatim>\<open>add_internal\<close>
  method; \<^verbatim>\<open>None\<close> has no such method, which raises \<^verbatim>\<open>AttributeError\<close>.
\<close>

definition group_add_player ::
  "player option \<Rightarrow> (player + base_object) list \<Rightarrow> error + (player + base_object) list" where
  "group_add_player pl g =
     (case pl of
        None \<Rightarrow> Inl (AttributeError ''NoneType object has no attribute add_internal'')
      | Some p \<Rightarrow> Inr (g @ [Inl p]))"

text \<open>
  \<^verbatim>\<open>load_map\<close> on the grid that \<^verbatim>\<open>_read_from_file\<close> returned: the scan, then the
  four additions to \<^verbatim>\<open>all_objects\<close>.
\<close>

definition load_map :: "(nat \<Rightarrow> nat \<Rightarrow> outside) \<Rightarrow> char list list \<Rightarrow> level \<Rightarrow> error + level" where
  "load_map ext level_map lv =
     (case load_rows ext 0 level_map lv of
        Inl e \<Rightarrow> Inl e
      | Inr lv' \<Rightarrow>
          (case group_add_player (player lv') (all_objects lv') of
             Inl e \<Rightarrow> Inl e
           | Inr g \<Rightarrow>
               Inr (lv'\<lparr>all_objects :=
                      g @ map Inr (safe_objects lv') @ map Inr (traps lv') @ map Inr (exits lv')\<rparr>)))"

text \<open>\<^verbatim>\<open>Level.__init__\<close>: an exception of \<^verbatim>\<open>load_map\<close> leaves the caller without a level.\<close>

definition Level_init ::
  "(nat \<Rightarrow> nat \<Rightarrow> outside) \<Rightarrow> string \<Rightarrow> char list list \<Rightarrow> int \<Rightarrow> error + level" where
  "Level_init ext nm level_map sz =
     load_map ext level_map
       \<lparr>name = nm, level_sprite_size = sz, player = None, all_objects = [],
        safe_objects = [], traps = [], exits = []\<rparr>"

section \<open>Predicates and concrete scenes used in the statements\<close>

text \<open>The frame index points into the frame sequence.\<close>

definition index_in_bounds :: "'a base_object_scheme \<Rightarrow> bool" where
  "index_in_bounds obj =
     (0 \<le> sprite_animation_index obj \<and> sprite_animation_index obj < int (length (sprites obj)))"

text \<open>Image surfaces, and so the boxes taken from them, have no negative width or height.\<close>

definition nonneg_size :: "Rect \<Rightarrow> bool" where
  "nonneg_size r = (0 \<le> rect_width r \<and> 0 \<le> rect_height r)"

text \<open>An outside world in which every image is 32 by 32 pixels and the clock stands at 0.\<close>

definition tiles32 :: outside where
  "tiles32 = \<lparr>get_ticks = 0, randint = 7, image_size = (\<lambda>filename. (32, 32))\<rparr>"

text \<open>The first object of a group, in iteration order, whose box overlaps a given box.\<close>

definition first_overlapping :: "Rect \<Rightarrow> base_object list \<Rightarrow> base_object option" where
  "first_overlapping box level_objects = find (\<lambda>q. colliderect (rect q) box) level_objects"

text \<open>
  Concrete scenes: a block at a pixel position, a player at the origin with given
  speeds, a player standing at the origin, and two sets of held keys.
\<close>

definition block_at :: "int \<Rightarrow> int \<Rightarrow> base_object" where
  "block_at x y = BaseObject_init tiles32 Block x y 32"

definition mover :: "int \<Rightarrow> rat \<Rightarrow> player" where
  "mover hs vs = (Player_init tiles32 0 0 32)\<lparr>horizontal_speed := hs, vertical_speed := vs\<rparr>"

definition standing_player :: player where
  "standing_player = (Player_init tiles32 0 0 32)\<lparr>bottom_collision := True\<rparr>"

definition jump_keys :: pressed_keys where
  "jump_keys = \<lparr>K_UP = True, K_LEFT = False, K_RIGHT = False\<rparr>"

definition walk_keys :: pressed_keys where
  "walk_keys = \<lparr>K_UP = False, K_LEFT = False, K_RIGHT = True\<rparr>"

text \<open>
  The cells of a grid in the order the two loops of \<^verbatim>\<open>load_map\<close> visit them, each with
  its row and column number; rows are numbered from \<open>row_num\<close>.
\<close>

definition cells :: "nat \<Rightarrow> char list list \<Rightarrow> (nat \<times> nat \<times> char) list" where
  "cells row_num level_map =
     concat (map (\<lambda>(r, row). map (\<lambda>(c, cell). (r, c, cell)) (enumerate 0 row))
               (enumerate row_num level_map))"

text \<open>The (row, column) positions of the cells holding a given character, in scan order.\<close>

definition positions :: "char \<Rightarrow> (nat \<times> nat \<times> char) list \<Rightarrow> (nat \<times> nat) list" where
  "positions ch cs = map (\<lambda>(r, c, cell). (r, c)) (filter (\<lambda>(r, c, cell). cell = ch) cs)"

text \<open>The cells holding one of the two hazard characters, in scan order.\<close>

definition trap_cells :: "(nat \<times> nat \<times> char) list \<Rightarrow> (nat \<times> nat \<times> char) list" where
  "trap_cells cs = filter (\<lambda>(r, c, cell). cell = CHR ''T'' \<or> cell = CHR ''t'') cs"

text \<open>
  The entity of a class, the hazard and the player that \<^verbatim>\<open>load_map\<close> constructs for a
  cell: placed at \<open>(column * sprite size, row * sprite size)\<close>.
\<close>

definition entity_at :: "(nat \<Rightarrow> nat \<Rightarrow> outside) \<Rightarrow> int \<Rightarrow> kind \<Rightarrow> nat \<times> nat \<Rightarrow> base_object" where
  "entity_at ext sz k = (\<lambda>(r, c). BaseObject_init (ext r c) k (int c * sz) (int r * sz) sz)"

definition trap_at :: "(nat \<Rightarrow> nat \<Rightarrow> outside) \<Rightarrow> int \<Rightarrow> nat \<times> nat \<times> char \<Rightarrow> base_object" where
  "trap_at ext sz = (\<lambda>(r, c, cell). entity_at ext sz (if cell = CHR ''T'' then Fire else BlueFire) (r, c))"

definition player_at :: "(nat \<Rightarrow> nat \<Rightarrow> outside) \<Rightarrow> int \<Rightarrow> nat \<times> nat \<Rightarrow> player" where
  "player_at ext sz = (\<lambda>(r, c). Player_init (ext r c) (int c * sz) (int r * sz) sz)"

text \<open>The error of a second player cell.\<close>

definition only_one_player :: error where
  "only_one_player = ValueError ''You can have only one player on the level. Please check your map.''"

text \<open>The scan of \<^verbatim>\<open>load_map\<close> as one loop over an enumerated list of cells.\<close>

fun load_cells :: "(nat \<Rightarrow> nat \<Rightarrow> outside) \<Rightarrow> (nat \<times> nat \<times> char) list \<Rightarrow> level \<Rightarrow> error + level"
  where
  "load_cells ext [] lv = Inr lv"
| "load_cells ext ((r, c, cell) # cs) lv =
     (case load_cell (ext r c) r c cell lv of
        Inl e \<Rightarrow> Inl e
      | Inr lv' \<Rightarrow> load_cells ext cs lv')"

text \<open>The level as \<^verbatim>\<open>Level.__init__\<close> sets it up before it calls \<^verbatim>\<open>load_map\<close>.\<close>

definition blank_level :: "string \<Rightarrow> int \<Rightarrow> level" where
  "blank_level nm sz =
     \<lparr>name = nm, level_sprite_size = sz, player = None, all_objects = [],
      safe_objects = [], traps = [], exits = []\<rparr>"

text \<open>The screen position of an entity: the left and top edge of its box.\<close>

definition topleft :: "'a base_object_scheme \<Rightarrow> int \<times> int" where
  "topleft obj = (rect_left (rect obj), rect_top (rect obj))"

text \<open>An outside world that looks the same during the construction of every entity.\<close>

definition still_world :: "nat \<Rightarrow> nat \<Rightarrow> outside" where
  "still_world row_num column_num = tiles32"

text \<open>
  The number of cadence intervals that have started between a due time and a clock
  value: none when the clock is not past the due time, otherwise the elapsed time
  divided by the cadence, rounded up.
\<close>

definition intervals_started :: "int \<Rightarrow> int \<Rightarrow> nat" where
  "intervals_started due ticks =
     (if ticks \<le> due then 0 else nat ((ticks - due - 1) div ANIMATION_SPEED) + 1)"

text \<open>A fire entity constructed at the origin: seven frames, index 0, due at 7.\<close>

definition fire0 :: base_object where
  "fire0 = BaseObject_init tiles32 Fire 0 0 32"

text \<open>
  The player after the first part of \<^verbatim>\<open>Player.update\<close> (the reset of the horizontal
  speed and the three key tests), before \<^verbatim>\<open>_movement_with_collision\<close> is called.
\<close>

definition apply_keys :: "pressed_keys \<Rightarrow> player \<Rightarrow> player" where
  "apply_keys keys p =
     (let p1 = p\<lparr>horizontal_speed := 0\<rparr>;
          p2 = (if K_UP keys \<and> bottom_collision p1
                then p1\<lparr>vertical_speed := - of_int JUMP_SPEED\<rparr> else p1);
          p3 = (if K_LEFT keys
                then p2\<lparr>sprites := sprites_left p2, horizontal_speed := - MOVE_SPEED\<rparr> else p2)
      in if K_RIGHT keys
         then p3\<lparr>sprites := sprites_right p3, horizontal_speed := MOVE_SPEED\<rparr> else p3)"

text \<open>
  The player of a frame when the vertical pass starts: the keys applied,
  \<open>bottom_collision\<close> reset and the horizontal pass done.
\<close>

definition before_vertical :: "pressed_keys \<Rightarrow> base_object list \<Rightarrow> player \<Rightarrow> player" where
  "before_vertical keys level_objects p =
     horizontal_pass level_objects ((apply_keys keys p)\<lparr>bottom_collision := False\<rparr>)"

text \<open>
  Some solid overlaps the box moved by the truncated vertical speed with the top edge of
  that box at or above the solid's bottom edge: the test of the upward branch of the
  vertical loop.
\<close>

definition hits_ceiling :: "base_object list \<Rightarrow> player \<Rightarrow> bool" where
  "hits_ceiling level_objects p =
     list_ex (\<lambda>q. colliderect (rect q) (move_ip (rect p) 0 (int_of_float (vertical_speed p))) \<and>
                   rect_top (move_ip (rect p) 0 (int_of_float (vertical_speed p)))
                     \<le> rect_bottom (rect q))
       level_objects"

text \<open>A block above the standing player, within reach of a jump.\<close>

definition low_ceiling :: base_object where
  "low_ceiling = block_at 0 (- 40)"

section \<open>The animator\<close>

lemma sprite_filenames_nonempty: "sprite_filenames k \<noteq> []"
  by (cases k) simp_all

lemma index_in_bounds_BaseObject_init: "index_in_bounds (BaseObject_init ext k x y sz)"
  using sprite_filenames_nonempty [of k]
  by (simp add: index_in_bounds_def BaseObject_init_def load_sprites_def Let_def)

lemma index_in_bounds_Player_init: "index_in_bounds (Player_init ext x y sz)"
  by (simp add: index_in_bounds_def Player_init_def BaseObject_init_def load_sprites_def Let_def
      base_object.extend_def)

lemma index_in_bounds_animate:
  assumes "index_in_bounds obj"
  shows "index_in_bounds (animate ticks obj)"
proof (cases "length (sprites obj) > 1 \<and> ticks - next_animation_time obj > 0")
  case True
  then have pos: "0 < int (length (sprites obj))" by (cases "sprites obj") auto
  show ?thesis
    using True pos_mod_sign [OF pos] pos_mod_bound [OF pos]
    by (simp add: index_in_bounds_def animate_def Let_def)
next
  case False
  with assms show ?thesis by (auto simp: animate_def)
qed

lemma animate_due:
  assumes "2 \<le> length (sprites obj)" "next_animation_time obj < ticks"
  shows "animate ticks obj =
     obj\<lparr>sprite_animation_index :=
           (sprite_animation_index obj + 1) mod int (length (sprites obj)),
         surf := sprites obj !
           nat ((sprite_animation_index obj + 1) mod int (length (sprites obj))),
         next_animation_time := next_animation_time obj + ANIMATION_SPEED\<rparr>"
  using assms by (simp add: animate_def Let_def)

lemma animate_not_due: "ticks \<le> next_animation_time obj \<Longrightarrow> animate ticks obj = obj"
  by (simp add: animate_def)

lemma animate_keeps_sprites: "sprites (animate ticks obj) = sprites obj"
  by (simp add: animate_def Let_def)

lemma le_div_cadence: "(k::int) \<le> x div 150 \<longleftrightarrow> k * 150 \<le> x"
proof
  assume "k \<le> x div 150"
  then have "k * 150 \<le> (x div 150) * 150" by simp
  also have "\<dots> = x - x mod 150" by (simp add: minus_mod_eq_div_mult)
  also have "\<dots> \<le> x" by simp
  finally show "k * 150 \<le> x" .
next
  assume "k * 150 \<le> x"
  then have "(k * 150) div 150 \<le> x div 150" by (rule zdiv_mono1) simp
  then show "k \<le> x div 150" by simp
qed

lemma started_gt: "int k * ANIMATION_SPEED + due < ticks \<longleftrightarrow> k < intervals_started due ticks"
proof (cases "ticks \<le> due")
  case True
  have "0 \<le> int k * 150" by simp
  with True show ?thesis
    by (simp add: intervals_started_def ANIMATION_SPEED_def)
next
  case False
  then have pos: "0 \<le> (ticks - due - 1) div 150"
    by (simp add: pos_imp_zdiv_nonneg_iff)
  have "int k * 150 + due < ticks \<longleftrightarrow> int k * 150 \<le> ticks - due - 1"
    by linarith
  also have "\<dots> \<longleftrightarrow> int k \<le> (ticks - due - 1) div 150"
    by (simp only: le_div_cadence)
  also have "\<dots> \<longleftrightarrow> k \<le> nat ((ticks - due - 1) div 150)"
    using pos by linarith
  finally show ?thesis
    using False by (simp add: intervals_started_def ANIMATION_SPEED_def less_Suc_eq_le)
qed

lemma animate_run:
  assumes "2 \<le> length (sprites obj)"
  shows "next_animation_time ((animate ticks ^^ n) obj) =
           next_animation_time obj +
             int (min n (intervals_started (next_animation_time obj) ticks)) * ANIMATION_SPEED \<and>
         sprites ((animate ticks ^^ n) obj) = sprites obj \<and>
         sprite_animation_index ((animate ticks ^^ n) obj) mod int (length (sprites obj)) =
           (sprite_animation_index obj +
              int (min n (intervals_started (next_animation_time obj) ticks)))
             mod int (length (sprites obj)) \<and>
         (index_in_bounds obj \<longrightarrow> index_in_bounds ((animate ticks ^^ n) obj))"
proof (induction n)
  case 0
  then show ?case by simp
next
  case (Suc n)
  let ?m = "intervals_started (next_animation_time obj) ticks"
  let ?o = "(animate ticks ^^ n) obj"
  have step: "(animate ticks ^^ Suc n) obj = animate ticks ?o" by simp
  have len: "2 \<le> length (sprites ?o)" using Suc assms by simp
  have inb: "index_in_bounds obj \<longrightarrow> index_in_bounds (animate ticks ?o)"
    using Suc by (simp add: index_in_bounds_animate)
  show ?case
  proof (cases "n < ?m")
    case True
    then have due: "next_animation_time ?o < ticks"
      using Suc started_gt [of n "next_animation_time obj" ticks] by (simp add: add.commute)
    from True have mn: "min (Suc n) ?m = Suc n" "min n ?m = n" by simp_all
    let ?L = "int (length (sprites obj))"
    have "(sprite_animation_index ?o + 1) mod ?L =
            (sprite_animation_index ?o mod ?L + 1) mod ?L"
      by (simp add: mod_simps)
    also have "\<dots> = ((sprite_animation_index obj + int n) mod ?L + 1) mod ?L"
      using Suc mn by simp
    also have "\<dots> = (sprite_animation_index obj + int (Suc n)) mod ?L"
      by (simp add: mod_simps algebra_simps)
    finally have idx: "(sprite_animation_index ?o + 1) mod ?L =
        (sprite_animation_index obj + int (Suc n)) mod ?L" .
    have sp: "sprites ?o = sprites obj" using Suc by simp
    show ?thesis
      unfolding step using Suc inb idx
      by (simp add: animate_due [OF len due] mn sp algebra_simps)
  next
    case False
    then have mn: "min (Suc n) ?m = ?m" "min n ?m = ?m" by simp_all
    have "\<not> int ?m * ANIMATION_SPEED + next_animation_time obj < ticks"
      using started_gt [of ?m "next_animation_time obj" ticks] by simp
    then have "ticks \<le> next_animation_time ?o"
      using Suc mn by (simp add: add.commute)
    then have "animate ticks ?o = ?o" by (rule animate_not_due)
    then show ?thesis unfolding step using Suc mn by simp
  qed
qed

text \<open>
  C9. The frame index of every entity lies within its frame sequence: it does so when
  the entity is constructed (a static entity of any class, or the player), and a call of
  \<open>animate\<close>, at any clock value, keeps it so.
\<close>

theorem frame_index_in_bounds:
  "index_in_bounds (BaseObject_init ext k x y sz) \<and>
   index_in_bounds (Player_init ext x y sz) \<and>
   (index_in_bounds obj \<longrightarrow> index_in_bounds (animate ticks obj))"
  by (simp add: index_in_bounds_BaseObject_init index_in_bounds_Player_init
      index_in_bounds_animate)

theorem frame_index_in_bounds_witness:
  "index_in_bounds (BaseObject_init tiles32 Fire 64 32 32) \<and>
   index_in_bounds (animate 1000 (BaseObject_init tiles32 Fire 64 32 32)) \<and>
   sprite_animation_index (animate 1000 (BaseObject_init tiles32 Fire 64 32 32)) = 1"
proof -
  have "sprite_animation_index (animate 1000 (BaseObject_init tiles32 Fire 64 32 32)) = 1"
    by (simp add: animate_def BaseObject_init_def load_sprites_def tiles32_def Let_def)
  then show ?thesis
    using frame_index_in_bounds
      [of tiles32 Fire 64 32 32 "BaseObject_init tiles32 Fire 64 32 32" 1000]
    by blast
qed

text \<open>
  C5, as the claim states it, fails. The fire entity is due at 7 and is asked at 308,
  two whole cadence intervals later: one call moves it on by one frame only, and calls
  repeated at that time move it on three times before they stop having an effect. In
  neither sense is the advance once per elapsed cadence interval.
\<close>

theorem once_per_elapsed_interval_counterexample:
  "2 \<le> length (sprites fire0) \<and>
   next_animation_time fire0 + ANIMATION_SPEED \<le> 308 \<and>
   (308 - next_animation_time fire0) div ANIMATION_SPEED = 2 \<and>
   sprite_animation_index fire0 = 0 \<and>
   sprite_animation_index (animate 308 fire0) = 1 \<and>
   sprite_animation_index (animate 308 (animate 308 (animate 308 fire0))) = 3 \<and>
   animate 308 (animate 308 (animate 308 (animate 308 fire0))) =
     animate 308 (animate 308 (animate 308 fire0))"
  by code_simp

text \<open>
  C5, amended. For an animator with at least two frames: a call at a clock value past
  the due time (so at every clock value at least one cadence past it) moves on by exactly
  one frame, wrapping modulo the number of frames, and sets the due time to the old due
  time plus the cadence, whatever the clock says; a call at a clock value not past the
  due time changes nothing. So \<open>n\<close> calls at one clock value move on once for each
  cadence interval that has started since the due time, and no further.
\<close>

theorem animate_one_frame_per_due_call:
  assumes "2 \<le> length (sprites obj)"
  shows "(next_animation_time obj < ticks \<longrightarrow>
            sprite_animation_index (animate ticks obj) =
              (sprite_animation_index obj + 1) mod int (length (sprites obj)) \<and>
            next_animation_time (animate ticks obj) = next_animation_time obj + ANIMATION_SPEED) \<and>
         (ticks \<le> next_animation_time obj \<longrightarrow> animate ticks obj = obj) \<and>
         next_animation_time ((animate ticks ^^ n) obj) =
           next_animation_time obj +
             int (min n (intervals_started (next_animation_time obj) ticks)) * ANIMATION_SPEED \<and>
         (index_in_bounds obj \<longrightarrow>
            sprite_animation_index ((animate ticks ^^ n) obj) =
              (sprite_animation_index obj +
                 int (min n (intervals_started (next_animation_time obj) ticks)))
                mod int (length (sprites obj)))"
proof -
  have one: "next_animation_time obj < ticks \<longrightarrow>
            sprite_animation_index (animate ticks obj) =
              (sprite_animation_index obj + 1) mod int (length (sprites obj)) \<and>
            next_animation_time (animate ticks obj) = next_animation_time obj + ANIMATION_SPEED"
    using animate_due [OF assms] by simp
  note run = animate_run [OF assms, where ticks = ticks and n = n]
  have idx: "sprite_animation_index ((animate ticks ^^ n) obj) =
              (sprite_animation_index obj +
                 int (min n (intervals_started (next_animation_time obj) ticks)))
                mod int (length (sprites obj))" if "index_in_bounds obj"
  proof -
    from that run have "index_in_bounds ((animate ticks ^^ n) obj)" by simp
    then have "sprite_animation_index ((animate ticks ^^ n) obj) mod int (length (sprites obj))
        = sprite_animation_index ((animate ticks ^^ n) obj)"
      using run by (simp add: index_in_bounds_def)
    with run show ?thesis by simp
  qed
  show ?thesis using one run idx by (simp add: animate_not_due)
qed

theorem animate_one_frame_per_due_call_witness:
  "2 \<le> length (sprites fire0) \<and> index_in_bounds fire0 \<and>
   next_animation_time fire0 < 308 \<and> 5 \<le> next_animation_time fire0 \<and>
   sprite_animation_index (animate 308 fire0) = 1 \<and>
   next_animation_time (animate 308 fire0) = 157 \<and>
   animate 5 fire0 = fire0 \<and>
   intervals_started (next_animation_time fire0) 308 = 3 \<and>
   next_animation_time ((animate 308 ^^ 5) fire0) = 457 \<and>
   sprite_animation_index ((animate 308 ^^ 5) fire0) = 3"
proof -
  have a: "2 \<le> length (sprites fire0)" by code_simp
  have b: "index_in_bounds fire0" "next_animation_time fire0 < 308" "5 \<le> next_animation_time fire0"
    "intervals_started (next_animation_time fire0) 308 = 3"
    by code_simp+
  have c: "length (sprites fire0) = 7" "sprite_animation_index fire0 = 0"
    "next_animation_time fire0 = 7"
    by code_simp+
  show ?thesis
    using a b animate_one_frame_per_due_call [OF a, where ticks = 308 and n = 5]
      animate_one_frame_per_due_call [OF a, where ticks = 5 and n = 0]
    by (simp add: c ANIMATION_SPEED_def)
qed

section \<open>Collision resolution\<close>

lemma colliderect_nonneg:
  assumes "nonneg_size A" "nonneg_size B"
  shows "colliderect A B \<longleftrightarrow>
     rect_width A \<noteq> 0 \<and> rect_height A \<noteq> 0 \<and> rect_width B \<noteq> 0 \<and> rect_height B \<noteq> 0 \<and>
     rect_left A < rect_right B \<and> rect_top A < rect_bottom B \<and>
     rect_left B < rect_right A \<and> rect_top B < rect_bottom A"
  using assms
  by (auto simp: colliderect_def nonneg_size_def rect_right_def rect_bottom_def min_def max_def)

lemma nonneg_size_move_ip [simp]: "nonneg_size (move_ip r dx dy) = nonneg_size r"
  by (simp add: nonneg_size_def move_ip_def)

lemma move_ip_edges [simp]:
  "rect_left (move_ip r dx dy) = rect_left r + dx"
  "rect_top (move_ip r dx dy) = rect_top r + dy"
  "rect_width (move_ip r dx dy) = rect_width r"
  "rect_height (move_ip r dx dy) = rect_height r"
  "rect_right (move_ip r dx dy) = rect_right r + dx"
  "rect_bottom (move_ip r dx dy) = rect_bottom r + dy"
  by (simp_all add: move_ip_def rect_right_def rect_bottom_def)

lemma move_ip_zero [simp]: "move_ip r 0 0 = r"
  by (simp add: move_ip_def)

subsection \<open>The horizontal pass\<close>

lemma horizontal_step_stopped: "horizontal_speed p = 0 \<Longrightarrow> horizontal_step ob p = p"
  by (simp add: horizontal_step_def)

lemma horizontal_step_miss: "\<not> colliderect (rect ob) (rect p) \<Longrightarrow> horizontal_step ob p = p"
  by (simp add: horizontal_step_def)

lemma fold_horizontal_stopped: "horizontal_speed p = 0 \<Longrightarrow> fold horizontal_step obs p = p"
  by (induction obs) (simp_all add: horizontal_step_stopped)

lemma horizontal_step_hit_right:
  assumes "colliderect (rect ob) (rect p)" "0 < horizontal_speed p"
    "nonneg_size (rect ob)" "nonneg_size (rect p)"
  shows "horizontal_step ob p =
    p\<lparr>horizontal_speed := 0,
      rect := move_ip (rect p) (rect_left (rect ob) - rect_right (rect p)) 0\<rparr>"
  using assms colliderect_nonneg [OF assms(3,4)] by (simp add: horizontal_step_def)

lemma horizontal_step_hit_left:
  assumes "colliderect (rect ob) (rect p)" "horizontal_speed p < 0"
    "nonneg_size (rect ob)" "nonneg_size (rect p)"
  shows "horizontal_step ob p =
    p\<lparr>horizontal_speed := 0,
      rect := move_ip (rect p) (rect_right (rect ob) - rect_left (rect p)) 0\<rparr>"
  using assms colliderect_nonneg [OF assms(3,4)] by (simp add: horizontal_step_def)

lemma fold_horizontal_first_right:
  assumes "find (\<lambda>q. colliderect (rect q) (rect p)) obs = Some ob" "0 < horizontal_speed p"
    "nonneg_size (rect ob)" "nonneg_size (rect p)"
  shows "fold horizontal_step obs p =
    p\<lparr>horizontal_speed := 0,
      rect := move_ip (rect p) (rect_left (rect ob) - rect_right (rect p)) 0\<rparr>"
  using assms(1)
proof (induction obs)
  case Nil
  then show ?case by simp
next
  case (Cons a obs)
  show ?case
  proof (cases "colliderect (rect a) (rect p)")
    case True
    with Cons.prems have "a = ob" by simp
    then show ?thesis
      using True assms(2-4)
      by (simp add: horizontal_step_hit_right fold_horizontal_stopped)
  next
    case False
    with Cons show ?thesis by (simp add: horizontal_step_miss)
  qed
qed

lemma fold_horizontal_first_left:
  assumes "find (\<lambda>q. colliderect (rect q) (rect p)) obs = Some ob" "horizontal_speed p < 0"
    "nonneg_size (rect ob)" "nonneg_size (rect p)"
  shows "fold horizontal_step obs p =
    p\<lparr>horizontal_speed := 0,
      rect := move_ip (rect p) (rect_right (rect ob) - rect_left (rect p)) 0\<rparr>"
  using assms(1)
proof (induction obs)
  case Nil
  then show ?case by simp
next
  case (Cons a obs)
  show ?case
  proof (cases "colliderect (rect a) (rect p)")
    case True
    with Cons.prems have "a = ob" by simp
    then show ?thesis
      using True assms(2-4)
      by (simp add: horizontal_step_hit_left fold_horizontal_stopped)
  next
    case False
    with Cons show ?thesis by (simp add: horizontal_step_miss)
  qed
qed

subsection \<open>The vertical pass\<close>

lemma vertical_step_stopped: "vertical_speed p = 0 \<Longrightarrow> vertical_step ob p = p"
  by (simp add: vertical_step_def)

lemma vertical_step_miss: "\<not> colliderect (rect ob) (rect p) \<Longrightarrow> vertical_step ob p = p"
  by (simp add: vertical_step_def)

lemma fold_vertical_stopped: "vertical_speed p = 0 \<Longrightarrow> fold vertical_step obs p = p"
  by (induction obs) (simp_all add: vertical_step_stopped)

lemma vertical_step_hit_down:
  assumes "colliderect (rect ob) (rect p)" "0 < vertical_speed p"
    "nonneg_size (rect ob)" "nonneg_size (rect p)"
  shows "vertical_step ob p =
    p\<lparr>vertical_speed := 0, bottom_collision := True,
      rect := move_ip (rect p) 0 (rect_top (rect ob) - rect_bottom (rect p))\<rparr>"
  using assms colliderect_nonneg [OF assms(3,4)] by (simp add: vertical_step_def)

lemma vertical_step_hit_up:
  assumes "colliderect (rect ob) (rect p)" "vertical_speed p < 0"
    "nonneg_size (rect ob)" "nonneg_size (rect p)"
  shows "vertical_step ob p =
    p\<lparr>vertical_speed := 0,
      rect := move_ip (rect p) 0 (rect_bottom (rect ob) - rect_top (rect p))\<rparr>"
  using assms colliderect_nonneg [OF assms(3,4)] by (simp add: vertical_step_def)

lemma fold_vertical_first_down:
  assumes "find (\<lambda>q. colliderect (rect q) (rect p)) obs = Some ob" "0 < vertical_speed p"
    "nonneg_size (rect ob)" "nonneg_size (rect p)"
  shows "fold vertical_step obs p =
    p\<lparr>vertical_speed := 0, bottom_collision := True,
      rect := move_ip (rect p) 0 (rect_top (rect ob) - rect_bottom (rect p))\<rparr>"
  using assms(1)
proof (induction obs)
  case Nil
  then show ?case by simp
next
  case (Cons a obs)
  show ?case
  proof (cases "colliderect (rect a) (rect p)")
    case True
    with Cons.prems have "a = ob" by simp
    then show ?thesis
      using True assms(2-4)
      by (simp add: vertical_step_hit_down fold_vertical_stopped)
  next
    case False
    with Cons show ?thesis by (simp add: vertical_step_miss)
  qed
qed

lemma fold_vertical_first_up:
  assumes "find (\<lambda>q. colliderect (rect q) (rect p)) obs = Some ob" "vertical_speed p < 0"
    "nonneg_size (rect ob)" "nonneg_size (rect p)"
  shows "fold vertical_step obs p =
    p\<lparr>vertical_speed := 0,
      rect := move_ip (rect p) 0 (rect_bottom (rect ob) - rect_top (rect p))\<rparr>"
  using assms(1)
proof (induction obs)
  case Nil
  then show ?case by simp
next
  case (Cons a obs)
  show ?case
  proof (cases "colliderect (rect a) (rect p)")
    case True
    with Cons.prems have "a = ob" by simp
    then show ?thesis
      using True assms(2-4)
      by (simp add: vertical_step_hit_up fold_vertical_stopped)
  next
    case False
    with Cons show ?thesis by (simp add: vertical_step_miss)
  qed
qed

lemma fold_miss_all:
  "find (\<lambda>q. colliderect (rect q) (rect p)) obs = None \<Longrightarrow> fold vertical_step obs p = p"
  "find (\<lambda>q. colliderect (rect q) (rect p)) obs = None \<Longrightarrow> fold horizontal_step obs p = p"
  by (induction obs) (auto simp: vertical_step_miss horizontal_step_miss split: if_splits)

subsection \<open>What each pass leaves alone\<close>

lemma horizontal_step_keeps:
  "vertical_speed (horizontal_step ob p) = vertical_speed p"
  "bottom_collision (horizontal_step ob p) = bottom_collision p"
  "rect_top (rect (horizontal_step ob p)) = rect_top (rect p)"
  "rect_width (rect (horizontal_step ob p)) = rect_width (rect p)"
  "rect_height (rect (horizontal_step ob p)) = rect_height (rect p)"
  by (simp_all add: horizontal_step_def)

lemma fold_horizontal_keeps:
  "vertical_speed (fold horizontal_step obs p) = vertical_speed p \<and>
   bottom_collision (fold horizontal_step obs p) = bottom_collision p \<and>
   rect_top (rect (fold horizontal_step obs p)) = rect_top (rect p) \<and>
   rect_width (rect (fold horizontal_step obs p)) = rect_width (rect p) \<and>
   rect_height (rect (fold horizontal_step obs p)) = rect_height (rect p)"
  by (induction obs arbitrary: p) (simp_all add: horizontal_step_keeps)

lemma horizontal_pass_keeps:
  "vertical_speed (horizontal_pass obs p) = vertical_speed p"
  "bottom_collision (horizontal_pass obs p) = bottom_collision p"
  "rect_top (rect (horizontal_pass obs p)) = rect_top (rect p)"
  "rect_width (rect (horizontal_pass obs p)) = rect_width (rect p)"
  "rect_height (rect (horizontal_pass obs p)) = rect_height (rect p)"
  "rect_bottom (rect (horizontal_pass obs p)) = rect_bottom (rect p)"
  "nonneg_size (rect (horizontal_pass obs p)) = nonneg_size (rect p)"
  by (simp_all add: horizontal_pass_def fold_horizontal_keeps rect_bottom_def nonneg_size_def)

lemma vertical_step_keeps:
  "horizontal_speed (vertical_step ob p) = horizontal_speed p"
  "rect_left (rect (vertical_step ob p)) = rect_left (rect p)"
  "rect_width (rect (vertical_step ob p)) = rect_width (rect p)"
  "rect_height (rect (vertical_step ob p)) = rect_height (rect p)"
  by (simp_all add: vertical_step_def)

lemma fold_vertical_keeps:
  "horizontal_speed (fold vertical_step obs p) = horizontal_speed p \<and>
   rect_left (rect (fold vertical_step obs p)) = rect_left (rect p) \<and>
   rect_width (rect (fold vertical_step obs p)) = rect_width (rect p) \<and>
   rect_height (rect (fold vertical_step obs p)) = rect_height (rect p)"
  by (induction obs arbitrary: p) (simp_all add: vertical_step_keeps)

lemma vertical_pass_keeps:
  "horizontal_speed (vertical_pass obs p) = horizontal_speed p"
  "rect_left (rect (vertical_pass obs p)) = rect_left (rect p)"
  "rect_width (rect (vertical_pass obs p)) = rect_width (rect p)"
  "rect_height (rect (vertical_pass obs p)) = rect_height (rect p)"
  "rect_right (rect (vertical_pass obs p)) = rect_right (rect p)"
  "nonneg_size (rect (vertical_pass obs p)) = nonneg_size (rect p)"
  by (simp_all add: vertical_pass_def fold_vertical_keeps rect_right_def nonneg_size_def)

lemma fold_vertical_not_down:
  "vertical_speed p \<le> 0 \<Longrightarrow> \<not> bottom_collision p \<Longrightarrow>
   \<not> bottom_collision (fold vertical_step obs p) \<and>
   (vertical_speed (fold vertical_step obs p) = vertical_speed p \<or>
    vertical_speed (fold vertical_step obs p) = 0)"
proof (induction obs arbitrary: p)
  case Nil
  then show ?case by simp
next
  case (Cons a obs)
  have a: "vertical_speed (vertical_step a p) \<le> 0" "\<not> bottom_collision (vertical_step a p)"
      "vertical_speed (vertical_step a p) = vertical_speed p \<or> vertical_speed (vertical_step a p) = 0"
    using Cons.prems by (auto simp: vertical_step_def)
  from Cons.IH [OF a(1,2)] a(3) show ?case by auto
qed

lemma movement_not_down:
  assumes "vertical_speed p \<le> 0"
  shows "\<not> bottom_collision (movement_with_collision obs p) \<and>
   (vertical_speed (movement_with_collision obs p) = vertical_speed p \<or>
    vertical_speed (movement_with_collision obs p) = 0)"
proof -
  let ?h = "horizontal_pass obs (p\<lparr>bottom_collision := False\<rparr>)"
  let ?m = "?h\<lparr>rect := move_ip (rect ?h) 0 (int_of_float (vertical_speed ?h))\<rparr>"
  have "vertical_speed ?m \<le> 0" "\<not> bottom_collision ?m" "vertical_speed ?m = vertical_speed p"
    using assms by (simp_all add: horizontal_pass_keeps)
  with fold_vertical_not_down [of ?m obs] show ?thesis
    by (simp add: movement_with_collision_def vertical_pass_def)
qed

lemma update_unfold:
  "\<exists>p4. vertical_speed p4 =
           (if K_UP keys \<and> bottom_collision p then - of_int JUMP_SPEED else vertical_speed p) \<and>
        horizontal_speed p4 =
           (if K_RIGHT keys then MOVE_SPEED else if K_LEFT keys then - MOVE_SPEED else 0) \<and>
        rect p4 = rect p \<and>
        update keys level_objects p =
          (if \<not> bottom_collision (movement_with_collision level_objects p4)
           then (movement_with_collision level_objects p4)
                  \<lparr>vertical_speed :=
                     vertical_speed (movement_with_collision level_objects p4) + FALL_ACCELERATION\<rparr>
           else movement_with_collision level_objects p4)"
proof -
  let ?p1 = "p\<lparr>horizontal_speed := 0\<rparr>"
  let ?p2 = "if K_UP keys \<and> bottom_collision ?p1
             then ?p1\<lparr>vertical_speed := - of_int JUMP_SPEED\<rparr> else ?p1"
  let ?p3 = "if K_LEFT keys
             then ?p2\<lparr>sprites := sprites_left ?p2, horizontal_speed := - MOVE_SPEED\<rparr> else ?p2"
  let ?p4 = "if K_RIGHT keys
             then ?p3\<lparr>sprites := sprites_right ?p3, horizontal_speed := MOVE_SPEED\<rparr> else ?p3"
  have "vertical_speed ?p4 =
           (if K_UP keys \<and> bottom_collision p then - of_int JUMP_SPEED else vertical_speed p)"
    by simp
  moreover have "horizontal_speed ?p4 =
           (if K_RIGHT keys then MOVE_SPEED else if K_LEFT keys then - MOVE_SPEED else 0)"
    by simp
  moreover have "rect ?p4 = rect p" by simp
  moreover have "update keys level_objects p =
          (if \<not> bottom_collision (movement_with_collision level_objects ?p4)
           then (movement_with_collision level_objects ?p4)
                  \<lparr>vertical_speed :=
                     vertical_speed (movement_with_collision level_objects ?p4) + FALL_ACCELERATION\<rparr>
           else movement_with_collision level_objects ?p4)"
    unfolding update_def Let_def by (rule refl)
  ultimately show ?thesis by blast
qed

lemma vertical_pass_at_rest: "vertical_speed p = 0 \<Longrightarrow> vertical_pass obs p = p"
  by (simp add: vertical_pass_def int_of_float_def fold_vertical_stopped)

lemma update_apply_keys:
  "update keys level_objects p =
     (if \<not> bottom_collision (movement_with_collision level_objects (apply_keys keys p))
      then (movement_with_collision level_objects (apply_keys keys p))
             \<lparr>vertical_speed :=
                vertical_speed (movement_with_collision level_objects (apply_keys keys p))
                  + FALL_ACCELERATION\<rparr>
      else movement_with_collision level_objects (apply_keys keys p))"
  unfolding update_def apply_keys_def Let_def by (rule refl)

lemma apply_keys_keeps:
  "rect (apply_keys keys p) = rect p"
  "vertical_speed (apply_keys keys p) =
     (if K_UP keys \<and> bottom_collision p then - of_int JUMP_SPEED else vertical_speed p)"
  by (simp_all add: apply_keys_def Let_def)

lemma fold_vertical_rising:
  assumes "vertical_speed p < 0"
  shows "fold vertical_step obs p =
     (if list_ex (\<lambda>q. colliderect (rect q) (rect p) \<and> rect_top (rect p) \<le> rect_bottom (rect q)) obs
      then (fold vertical_step obs p)\<lparr>vertical_speed := 0\<rparr>
      else p)"
  using assms
proof (induction obs)
  case Nil
  then show ?case by simp
next
  case (Cons a obs)
  show ?case
  proof (cases "colliderect (rect a) (rect p) \<and> rect_top (rect p) \<le> rect_bottom (rect a)")
    case True
    with Cons.prems have "vertical_speed (vertical_step a p) = 0"
      by (simp add: vertical_step_def)
    then have "fold vertical_step obs (vertical_step a p) = vertical_step a p"
      "vertical_speed (vertical_step a p) = 0"
      by (simp_all add: fold_vertical_stopped)
    with True show ?thesis by simp
  next
    case False
    with Cons.prems have "vertical_step a p = p"
      by (auto simp: vertical_step_def)
    with False Cons show ?thesis by auto
  qed
qed

lemma int_of_float_of_int [simp]: "int_of_float (of_int z) = z"
  by (simp add: int_of_float_def)

section \<open>Claims about the player\<close>

text \<open>
  C6. A player moving right whose box, once moved by the horizontal speed, overlaps the
  only solid object: after \<open>movement_with_collision\<close> the horizontal speed is 0, the
  player's right edge is the object's left edge, and the two boxes do not overlap.
\<close>

theorem moving_right_snaps_to_left_face:
  assumes "0 < horizontal_speed p"
    and "colliderect (rect ob) (move_ip (rect p) (horizontal_speed p) 0)"
    and "nonneg_size (rect p)" and "nonneg_size (rect ob)"
  shows "horizontal_speed (movement_with_collision [ob] p) = 0 \<and>
         rect_right (rect (movement_with_collision [ob] p)) = rect_left (rect ob) \<and>
         \<not> colliderect (rect ob) (rect (movement_with_collision [ob] p))"
proof -
  let ?p0 = "p\<lparr>bottom_collision := False\<rparr>"
  let ?m = "?p0\<lparr>rect := move_ip (rect ?p0) (horizontal_speed ?p0) 0\<rparr>"
  have h: "horizontal_pass [ob] ?p0 =
     ?m\<lparr>horizontal_speed := 0,
        rect := move_ip (rect ?m) (rect_left (rect ob) - rect_right (rect ?m)) 0\<rparr>"
    unfolding horizontal_pass_def using assms
    by (simp add: horizontal_step_hit_right)
  let ?r = "movement_with_collision [ob] p"
  have r: "?r = vertical_pass [ob] (horizontal_pass [ob] ?p0)"
    by (simp add: movement_with_collision_def)
  have speed: "horizontal_speed ?r = 0"
    unfolding r vertical_pass_keeps h by simp
  have right: "rect_right (rect ?r) = rect_left (rect ob)"
    unfolding r vertical_pass_keeps h by simp
  have nn: "nonneg_size (rect ?r)"
    unfolding r vertical_pass_keeps h using assms(3) by simp
  have "\<not> colliderect (rect ob) (rect ?r)"
    using right by (simp add: colliderect_nonneg [OF assms(4) nn])
  with speed right show ?thesis by simp
qed

theorem moving_right_snaps_to_left_face_witness:
  "0 < horizontal_speed (mover 2 0) \<and>
   colliderect (rect (block_at 33 0)) (move_ip (rect (mover 2 0)) (horizontal_speed (mover 2 0)) 0) \<and>
   horizontal_speed (movement_with_collision [block_at 33 0] (mover 2 0)) = 0 \<and>
   rect_right (rect (movement_with_collision [block_at 33 0] (mover 2 0))) = 33 \<and>
   \<not> colliderect (rect (block_at 33 0)) (rect (movement_with_collision [block_at 33 0] (mover 2 0)))"
proof -
  have a: "0 < horizontal_speed (mover 2 0)" by code_simp
  have b: "colliderect (rect (block_at 33 0))
             (move_ip (rect (mover 2 0)) (horizontal_speed (mover 2 0)) 0)"
    by code_simp
  have c: "nonneg_size (rect (mover 2 0))" by code_simp
  have d: "nonneg_size (rect (block_at 33 0))" by code_simp
  have e: "rect_left (rect (block_at 33 0)) = 33" by code_simp
  show ?thesis
    using a b moving_right_snaps_to_left_face [OF a b c d] by (simp add: e)
qed

text \<open>
  C7. A player moving down whose box, once moved by the (truncated) vertical speed after
  the horizontal pass, overlaps the only solid object: after \<open>movement_with_collision\<close>
  the vertical speed is 0, \<open>bottom_collision\<close> is set, and the player's bottom edge is
  the object's top edge.
\<close>

theorem falling_lands_on_top_face:
  assumes "0 < vertical_speed p"
    and "colliderect (rect ob)
           (move_ip (rect (horizontal_pass [ob] (p\<lparr>bottom_collision := False\<rparr>))) 0
              (int_of_float (vertical_speed p)))"
    and "nonneg_size (rect p)" and "nonneg_size (rect ob)"
  shows "vertical_speed (movement_with_collision [ob] p) = 0 \<and>
         bottom_collision (movement_with_collision [ob] p) \<and>
         rect_bottom (rect (movement_with_collision [ob] p)) = rect_top (rect ob)"
proof -
  let ?h = "horizontal_pass [ob] (p\<lparr>bottom_collision := False\<rparr>)"
  let ?m = "?h\<lparr>rect := move_ip (rect ?h) 0 (int_of_float (vertical_speed ?h))\<rparr>"
  have vs: "vertical_speed ?h = vertical_speed p" by (simp add: horizontal_pass_keeps)
  have nn: "nonneg_size (rect ?h)" using assms(3) by (simp add: horizontal_pass_keeps)
  have "vertical_pass [ob] ?h =
     ?m\<lparr>vertical_speed := 0, bottom_collision := True,
        rect := move_ip (rect ?m) 0 (rect_top (rect ob) - rect_bottom (rect ?m))\<rparr>"
    unfolding vertical_pass_def using assms nn vs
    by (simp add: vertical_step_hit_down)
  then show ?thesis
    by (simp add: movement_with_collision_def)
qed

theorem falling_lands_on_top_face_witness:
  "0 < vertical_speed (mover 0 (24 / 5)) \<and>
   colliderect (rect (block_at 0 35))
     (move_ip (rect (horizontal_pass [block_at 0 35] ((mover 0 (24 / 5))\<lparr>bottom_collision := False\<rparr>))) 0
        (int_of_float (vertical_speed (mover 0 (24 / 5))))) \<and>
   vertical_speed (movement_with_collision [block_at 0 35] (mover 0 (24 / 5))) = 0 \<and>
   bottom_collision (movement_with_collision [block_at 0 35] (mover 0 (24 / 5))) \<and>
   rect_bottom (rect (movement_with_collision [block_at 0 35] (mover 0 (24 / 5)))) = 35"
proof -
  have a: "0 < vertical_speed (mover 0 (24 / 5))" by code_simp
  have b: "colliderect (rect (block_at 0 35))
     (move_ip (rect (horizontal_pass [block_at 0 35] ((mover 0 (24 / 5))\<lparr>bottom_collision := False\<rparr>))) 0
        (int_of_float (vertical_speed (mover 0 (24 / 5)))))"
    by code_simp
  have c: "nonneg_size (rect (mover 0 (24 / 5)))" by code_simp
  have d: "nonneg_size (rect (block_at 0 35))" by code_simp
  have e: "rect_top (rect (block_at 0 35)) = 35" by code_simp
  show ?thesis
    using a b falling_lands_on_top_face [OF a b c d] by (simp add: e)
qed

text \<open>
  C4, as the claim states it, fails: a player standing on a block with "up" held ends
  the frame with vertical speed \<open>-97/10\<close>, not \<open>-JUMP_SPEED\<close>, because the player is
  airborne after the resolution and \<open>FALL_ACCELERATION\<close> is added in the same frame.
\<close>

theorem jump_velocity_counterexample:
  "bottom_collision standing_player \<and> K_UP jump_keys \<and>
   vertical_speed (update jump_keys [block_at 0 32] standing_player) = - 97 / 10 \<and>
   vertical_speed (update jump_keys [block_at 0 32] standing_player) \<noteq> - of_int JUMP_SPEED"
  by code_simp

text \<open>
  C4, amended. For a player with \<open>bottom_collision\<close> set and "up" held, \<open>update\<close>
  sets the vertical speed to \<open>-JUMP_SPEED\<close> before the resolution and, the player being
  airborne after it, adds \<open>FALL_ACCELERATION\<close> in the same frame: at the end of the
  frame the speed is \<open>-JUMP_SPEED + FALL_ACCELERATION\<close> and the box has moved up by
  \<open>JUMP_SPEED\<close> when no solid stopped the upward move, and it is \<open>FALL_ACCELERATION\<close>
  when one did; it is never \<open>-JUMP_SPEED\<close>. \<open>bottom_collision\<close> is already false at the
  end of that same frame.
\<close>

theorem jump_from_ground:
  assumes "bottom_collision p" and "K_UP keys"
  shows "vertical_speed (apply_keys keys p) = - of_int JUMP_SPEED \<and>
         update keys level_objects p =
           (movement_with_collision level_objects (apply_keys keys p))
             \<lparr>vertical_speed :=
                vertical_speed (movement_with_collision level_objects (apply_keys keys p))
                  + FALL_ACCELERATION\<rparr> \<and>
         \<not> bottom_collision (update keys level_objects p) \<and>
         vertical_speed (update keys level_objects p) =
           (if hits_ceiling level_objects (before_vertical keys level_objects p)
            then FALL_ACCELERATION
            else - of_int JUMP_SPEED + FALL_ACCELERATION) \<and>
         (\<not> hits_ceiling level_objects (before_vertical keys level_objects p) \<longrightarrow>
            rect_top (rect (update keys level_objects p)) = rect_top (rect p) - JUMP_SPEED) \<and>
         vertical_speed (update keys level_objects p) \<noteq> - of_int JUMP_SPEED"
proof -
  let ?k = "apply_keys keys p"
  let ?h = "before_vertical keys level_objects p"
  let ?m = "?h\<lparr>rect := move_ip (rect ?h) 0 (int_of_float (vertical_speed ?h))\<rparr>"
  let ?r = "movement_with_collision level_objects ?k"
  have vk: "vertical_speed ?k = - of_int JUMP_SPEED"
    using assms by (simp add: apply_keys_keeps)
  have vh: "vertical_speed ?h = - of_int JUMP_SPEED" "\<not> bottom_collision ?h"
    "rect_top (rect ?h) = rect_top (rect p)"
    using vk by (simp_all add: before_vertical_def horizontal_pass_keeps apply_keys_keeps)
  have r: "?r = fold vertical_step level_objects ?m"
    by (simp add: movement_with_collision_def vertical_pass_def before_vertical_def)
  have neg: "vertical_speed ?m < 0" using vh by (simp add: JUMP_SPEED_def)
  have nd: "\<not> bottom_collision ?r"
    using movement_not_down [of ?k level_objects] vk by (simp add: JUMP_SPEED_def)
  have c: "hits_ceiling level_objects ?h \<longleftrightarrow>
      list_ex (\<lambda>q. colliderect (rect q) (rect ?m) \<and> rect_top (rect ?m) \<le> rect_bottom (rect q))
        level_objects"
    by (simp add: hits_ceiling_def)
  have hit: "vertical_speed ?r = 0" if "hits_ceiling level_objects ?h"
  proof -
    from that c fold_vertical_rising [OF neg, of level_objects]
    have "fold vertical_step level_objects ?m =
            (fold vertical_step level_objects ?m)\<lparr>vertical_speed := 0\<rparr>"
      by simp
    then have "vertical_speed (fold vertical_step level_objects ?m) =
            vertical_speed ((fold vertical_step level_objects ?m)\<lparr>vertical_speed := 0\<rparr>)"
      by simp
    then show ?thesis unfolding r by simp
  qed
  have miss: "?r = ?m" if "\<not> hits_ceiling level_objects ?h"
    using that c fold_vertical_rising [OF neg, of level_objects] unfolding r by simp
  have jm: "int_of_float (- rat_of_int JUMP_SPEED) = - JUMP_SPEED"
    using int_of_float_of_int [of "- JUMP_SPEED"] by simp
  have top: "rect_top (rect ?r) = rect_top (rect p) - JUMP_SPEED"
    if "\<not> hits_ceiling level_objects ?h"
    unfolding miss [OF that] using vh by (simp add: jm)
  have vmiss: "vertical_speed ?r = - of_int JUMP_SPEED" if "\<not> hits_ceiling level_objects ?h"
    unfolding miss [OF that] using vh by simp
  have u: "update keys level_objects p = ?r\<lparr>vertical_speed := vertical_speed ?r + FALL_ACCELERATION\<rparr>"
    using nd by (simp add: update_apply_keys)
  show ?thesis
    using vk nd hit vmiss top
    by (auto simp: u JUMP_SPEED_def FALL_ACCELERATION_def)
qed

theorem jump_from_ground_witness:
  "bottom_collision standing_player \<and> K_UP jump_keys \<and>
   \<not> hits_ceiling [block_at 0 32] (before_vertical jump_keys [block_at 0 32] standing_player) \<and>
   hits_ceiling [block_at 0 32, low_ceiling]
     (before_vertical jump_keys [block_at 0 32, low_ceiling] standing_player) \<and>
   vertical_speed (apply_keys jump_keys standing_player) = - 10 \<and>
   \<not> bottom_collision (update jump_keys [block_at 0 32] standing_player) \<and>
   vertical_speed (update jump_keys [block_at 0 32] standing_player) = - 97 / 10 \<and>
   rect_top (rect (update jump_keys [block_at 0 32] standing_player)) = - 10 \<and>
   vertical_speed (update jump_keys [block_at 0 32, low_ceiling] standing_player) = 3 / 10"
proof -
  have a: "bottom_collision standing_player" by code_simp
  have b: "K_UP jump_keys" by code_simp
  have c: "\<not> hits_ceiling [block_at 0 32] (before_vertical jump_keys [block_at 0 32] standing_player)"
    by code_simp
  have d: "hits_ceiling [block_at 0 32, low_ceiling]
     (before_vertical jump_keys [block_at 0 32, low_ceiling] standing_player)"
    by code_simp
  have e: "rect_top (rect standing_player) = 0" by code_simp
  note t1 = jump_from_ground [OF a b, of "[block_at 0 32]"]
  note t2 = jump_from_ground [OF a b, of "[block_at 0 32, low_ceiling]"]
  have v: "vertical_speed (apply_keys jump_keys standing_player) = - 10"
    using t1 [THEN conjunct1] by (simp add: JUMP_SPEED_def)
  have n: "\<not> bottom_collision (update jump_keys [block_at 0 32] standing_player)"
    by (rule t1 [THEN conjunct2, THEN conjunct2, THEN conjunct1])
  have s1: "vertical_speed (update jump_keys [block_at 0 32] standing_player) = - 97 / 10"
    using c t1 [THEN conjunct2, THEN conjunct2, THEN conjunct2, THEN conjunct1]
    by (simp add: JUMP_SPEED_def FALL_ACCELERATION_def)
  have tp: "rect_top (rect (update jump_keys [block_at 0 32] standing_player)) = - 10"
    using c t1 [THEN conjunct2, THEN conjunct2, THEN conjunct2, THEN conjunct2, THEN conjunct1]
    by (simp add: e JUMP_SPEED_def)
  have s2: "vertical_speed (update jump_keys [block_at 0 32, low_ceiling] standing_player) = 3 / 10"
    using d t2 [THEN conjunct2, THEN conjunct2, THEN conjunct2, THEN conjunct1]
    by (simp add: FALL_ACCELERATION_def)
  show ?thesis
    using a b c d v n s1 tp s2 by blast
qed

text \<open>
  C10. A player with vertical speed 0 whose bottom edge equals the top edge of a solid
  object (and whose jump is not triggered in this frame): the two boxes do not collide,
  the resolution leaves \<open>bottom_collision\<close> false, and \<open>update\<close> adds
  \<open>FALL_ACCELERATION\<close> to the vertical speed; the edges still touch afterwards.
\<close>

theorem edge_contact_does_not_ground:
  assumes "vertical_speed p = 0"
    and "\<not> (K_UP keys \<and> bottom_collision p)"
    and "ob \<in> set level_objects"
    and "rect_bottom (rect p) = rect_top (rect ob)"
    and "nonneg_size (rect p)" and "nonneg_size (rect ob)"
  shows "\<not> colliderect (rect ob) (rect p) \<and>
         \<not> bottom_collision (movement_with_collision level_objects p) \<and>
         \<not> bottom_collision (update keys level_objects p) \<and>
         vertical_speed (update keys level_objects p) = vertical_speed p + FALL_ACCELERATION \<and>
         rect_bottom (rect (update keys level_objects p)) = rect_top (rect ob) \<and>
         \<not> colliderect (rect ob) (rect (update keys level_objects p))"
proof -
  have touch: "\<not> colliderect (rect ob) (rect p)"
    using assms(4) by (simp add: colliderect_nonneg [OF assms(6,5)])
  have mv: "\<not> bottom_collision (movement_with_collision level_objects p)"
    using movement_not_down [of p level_objects] assms(1) by simp
  obtain p4 where v4: "vertical_speed p4 = 0" and r4: "rect p4 = rect p"
    and u: "update keys level_objects p =
          (if \<not> bottom_collision (movement_with_collision level_objects p4)
           then (movement_with_collision level_objects p4)
                  \<lparr>vertical_speed :=
                     vertical_speed (movement_with_collision level_objects p4) + FALL_ACCELERATION\<rparr>
           else movement_with_collision level_objects p4)"
    using update_unfold [of keys p level_objects] assms(1,2) by auto
  let ?h = "horizontal_pass level_objects (p4\<lparr>bottom_collision := False\<rparr>)"
  have m: "movement_with_collision level_objects p4 = ?h"
    by (simp add: movement_with_collision_def vertical_pass_at_rest horizontal_pass_keeps v4)
  have hb: "\<not> bottom_collision ?h" "vertical_speed ?h = 0"
      "rect_bottom (rect ?h) = rect_bottom (rect p)" "nonneg_size (rect ?h)"
    using v4 r4 assms(5) by (simp_all add: horizontal_pass_keeps)
  have upd: "update keys level_objects p = ?h\<lparr>vertical_speed := FALL_ACCELERATION\<rparr>"
    unfolding u m using hb by simp
  have "\<not> colliderect (rect ob) (rect ?h)"
    using hb(3) assms(4) by (simp add: colliderect_nonneg [OF assms(6) hb(4)])
  then show ?thesis
    using touch mv hb assms(1,4) by (simp add: upd)
qed

theorem edge_contact_does_not_ground_witness:
  "vertical_speed (mover 0 0) = 0 \<and>
   block_at 0 32 \<in> set [block_at 0 32] \<and>
   rect_bottom (rect (mover 0 0)) = rect_top (rect (block_at 0 32)) \<and>
   \<not> bottom_collision (movement_with_collision [block_at 0 32] (mover 0 0)) \<and>
   \<not> bottom_collision (update walk_keys [block_at 0 32] (mover 0 0)) \<and>
   vertical_speed (update walk_keys [block_at 0 32] (mover 0 0)) = 3 / 10"
proof -
  have a: "vertical_speed (mover 0 0) = 0" by code_simp
  have b: "\<not> (K_UP walk_keys \<and> bottom_collision (mover 0 0))" by code_simp
  have c: "block_at 0 32 \<in> set [block_at 0 32]" by simp
  have d: "rect_bottom (rect (mover 0 0)) = rect_top (rect (block_at 0 32))"
    by code_simp
  have e: "nonneg_size (rect (mover 0 0))" by code_simp
  have f: "nonneg_size (rect (block_at 0 32))" by code_simp
  show ?thesis
    using a d edge_contact_does_not_ground [OF a b c d e f]
    by (simp add: FALL_ACCELERATION_def)
qed

text \<open>
  C3, as the claim states it, fails: two blocks that do not overlap each other both
  overlap the moved box of a player walking right; the player ends at the left edge of
  the block visited first, not of the one visited last.
\<close>

theorem last_overlapping_solid_counterexample:
  "colliderect (rect (block_at 33 (- 20))) (move_ip (rect (mover 2 0)) (horizontal_speed (mover 2 0)) 0) \<and>
   colliderect (rect (block_at 32 20)) (move_ip (rect (mover 2 0)) (horizontal_speed (mover 2 0)) 0) \<and>
   \<not> colliderect (rect (block_at 33 (- 20))) (rect (block_at 32 20)) \<and>
   rect_right (rect (movement_with_collision [block_at 33 (- 20), block_at 32 20] (mover 2 0)))
     = rect_left (rect (block_at 33 (- 20))) \<and>
   rect_right (rect (movement_with_collision [block_at 33 (- 20), block_at 32 20] (mover 2 0)))
     \<noteq> rect_left (rect (block_at 32 20))"
  by code_simp

text \<open>
  C3, amended. In each axis pass every solid is visited in iteration order, and the
  first solid that overlaps the moved box determines the snapped position for that axis:
  the snap sets the speed of that axis to 0, so no later solid moves the player again.
\<close>

theorem first_overlapping_solid_wins:
  assumes "nonneg_size (rect p)" and "nonneg_size (rect ob)"
  shows
    "(first_overlapping (move_ip (rect p) (horizontal_speed p) 0) level_objects = Some ob \<longrightarrow>
        (0 < horizontal_speed p \<longrightarrow>
           rect_right (rect (horizontal_pass level_objects p)) = rect_left (rect ob) \<and>
           horizontal_speed (horizontal_pass level_objects p) = 0) \<and>
        (horizontal_speed p < 0 \<longrightarrow>
           rect_left (rect (horizontal_pass level_objects p)) = rect_right (rect ob) \<and>
           horizontal_speed (horizontal_pass level_objects p) = 0)) \<and>
     (first_overlapping (move_ip (rect p) 0 (int_of_float (vertical_speed p))) level_objects = Some ob \<longrightarrow>
        (0 < vertical_speed p \<longrightarrow>
           rect_bottom (rect (vertical_pass level_objects p)) = rect_top (rect ob) \<and>
           vertical_speed (vertical_pass level_objects p) = 0) \<and>
        (vertical_speed p < 0 \<longrightarrow>
           rect_top (rect (vertical_pass level_objects p)) = rect_bottom (rect ob) \<and>
           vertical_speed (vertical_pass level_objects p) = 0))"
proof -
  let ?mh = "p\<lparr>rect := move_ip (rect p) (horizontal_speed p) 0\<rparr>"
  let ?mv = "p\<lparr>rect := move_ip (rect p) 0 (int_of_float (vertical_speed p))\<rparr>"
  have nh: "nonneg_size (rect ?mh)" and nv: "nonneg_size (rect ?mv)"
    using assms(1) by simp_all
  have hr: "rect_right (rect (horizontal_pass level_objects p)) = rect_left (rect ob) \<and>
           horizontal_speed (horizontal_pass level_objects p) = 0"
    if "first_overlapping (move_ip (rect p) (horizontal_speed p) 0) level_objects = Some ob"
      and "0 < horizontal_speed p"
  proof -
    from that have f: "find (\<lambda>q. colliderect (rect q) (rect ?mh)) level_objects = Some ob"
      and s: "0 < horizontal_speed ?mh"
      by (simp_all add: first_overlapping_def)
    show ?thesis
      unfolding horizontal_pass_def fold_horizontal_first_right [OF f s assms(2) nh] by simp
  qed
  have hl: "rect_left (rect (horizontal_pass level_objects p)) = rect_right (rect ob) \<and>
           horizontal_speed (horizontal_pass level_objects p) = 0"
    if "first_overlapping (move_ip (rect p) (horizontal_speed p) 0) level_objects = Some ob"
      and "horizontal_speed p < 0"
  proof -
    from that have f: "find (\<lambda>q. colliderect (rect q) (rect ?mh)) level_objects = Some ob"
      and s: "horizontal_speed ?mh < 0"
      by (simp_all add: first_overlapping_def)
    show ?thesis
      unfolding horizontal_pass_def fold_horizontal_first_left [OF f s assms(2) nh] by simp
  qed
  have vd: "rect_bottom (rect (vertical_pass level_objects p)) = rect_top (rect ob) \<and>
           vertical_speed (vertical_pass level_objects p) = 0"
    if "first_overlapping (move_ip (rect p) 0 (int_of_float (vertical_speed p))) level_objects = Some ob"
      and "0 < vertical_speed p"
  proof -
    from that have f: "find (\<lambda>q. colliderect (rect q) (rect ?mv)) level_objects = Some ob"
      and s: "0 < vertical_speed ?mv"
      by (simp_all add: first_overlapping_def)
    show ?thesis
      unfolding vertical_pass_def fold_vertical_first_down [OF f s assms(2) nv] by simp
  qed
  have vu: "rect_top (rect (vertical_pass level_objects p)) = rect_bottom (rect ob) \<and>
           vertical_speed (vertical_pass level_objects p) = 0"
    if "first_overlapping (move_ip (rect p) 0 (int_of_float (vertical_speed p))) level_objects = Some ob"
      and "vertical_speed p < 0"
  proof -
    from that have f: "find (\<lambda>q. colliderect (rect q) (rect ?mv)) level_objects = Some ob"
      and s: "vertical_speed ?mv < 0"
      by (simp_all add: first_overlapping_def)
    show ?thesis
      unfolding vertical_pass_def fold_vertical_first_up [OF f s assms(2) nv] by simp
  qed
  from hr hl vd vu show ?thesis by blast
qed

theorem first_overlapping_solid_wins_witness:
  "first_overlapping (move_ip (rect (mover 2 5)) (horizontal_speed (mover 2 5)) 0)
      [block_at 33 (- 20), block_at 32 20] = Some (block_at 33 (- 20)) \<and>
   rect_right (rect (horizontal_pass [block_at 33 (- 20), block_at 32 20] (mover 2 5))) = 33 \<and>
   first_overlapping (move_ip (rect (mover (- 2) (- 10))) (horizontal_speed (mover (- 2) (- 10))) 0)
      [block_at (- 33) (- 20), block_at (- 32) 20] = Some (block_at (- 33) (- 20)) \<and>
   rect_left (rect (horizontal_pass [block_at (- 33) (- 20), block_at (- 32) 20] (mover (- 2) (- 10)))) = - 1 \<and>
   first_overlapping (move_ip (rect (mover 2 5)) 0 (int_of_float (vertical_speed (mover 2 5))))
      [block_at (- 20) 36, block_at 20 33] = Some (block_at (- 20) 36) \<and>
   rect_bottom (rect (vertical_pass [block_at (- 20) 36, block_at 20 33] (mover 2 5))) = 36 \<and>
   first_overlapping (move_ip (rect (mover (- 2) (- 10))) 0 (int_of_float (vertical_speed (mover (- 2) (- 10)))))
      [block_at (- 20) (- 37), block_at 20 (- 34)] = Some (block_at (- 20) (- 37)) \<and>
   rect_top (rect (vertical_pass [block_at (- 20) (- 37), block_at 20 (- 34)] (mover (- 2) (- 10)))) = - 5"
proof -
  have np: "nonneg_size (rect (mover 2 5))" and nq: "nonneg_size (rect (mover (- 2) (- 10)))"
    by code_simp+
  have n1: "nonneg_size (rect (block_at 33 (- 20)))"
    and n2: "nonneg_size (rect (block_at (- 33) (- 20)))"
    and n3: "nonneg_size (rect (block_at (- 20) 36))"
    and n4: "nonneg_size (rect (block_at (- 20) (- 37)))"
    by code_simp+
  have f1: "first_overlapping (move_ip (rect (mover 2 5)) (horizontal_speed (mover 2 5)) 0)
      [block_at 33 (- 20), block_at 32 20] = Some (block_at 33 (- 20))"
    by code_simp
  have f2: "first_overlapping (move_ip (rect (mover (- 2) (- 10))) (horizontal_speed (mover (- 2) (- 10))) 0)
      [block_at (- 33) (- 20), block_at (- 32) 20] = Some (block_at (- 33) (- 20))"
    by code_simp
  have f3: "first_overlapping (move_ip (rect (mover 2 5)) 0 (int_of_float (vertical_speed (mover 2 5))))
      [block_at (- 20) 36, block_at 20 33] = Some (block_at (- 20) 36)"
    by code_simp
  have f4: "first_overlapping (move_ip (rect (mover (- 2) (- 10))) 0 (int_of_float (vertical_speed (mover (- 2) (- 10)))))
      [block_at (- 20) (- 37), block_at 20 (- 34)] = Some (block_at (- 20) (- 37))"
    by code_simp
  have s: "0 < horizontal_speed (mover 2 5)" "horizontal_speed (mover (- 2) (- 10)) < 0"
    "0 < vertical_speed (mover 2 5)" "vertical_speed (mover (- 2) (- 10)) < 0"
    by code_simp+
  have e: "rect_left (rect (block_at 33 (- 20))) = 33"
    "rect_right (rect (block_at (- 33) (- 20))) = - 1"
    "rect_top (rect (block_at (- 20) 36)) = 36"
    "rect_bottom (rect (block_at (- 20) (- 37))) = - 5"
    by code_simp+
  show ?thesis
    using f1 f2 f3 f4 s
      first_overlapping_solid_wins [OF np n1, of "[block_at 33 (- 20), block_at 32 20]"]
      first_overlapping_solid_wins [OF nq n2, of "[block_at (- 33) (- 20), block_at (- 32) 20]"]
      first_overlapping_solid_wins [OF np n3, of "[block_at (- 20) 36, block_at 20 33]"]
      first_overlapping_solid_wins [OF nq n4, of "[block_at (- 20) (- 37), block_at 20 (- 34)]"]
    by (simp add: e)
qed

section \<open>Level loading\<close>

lemma load_cells_append:
  "load_cells ext (xs @ ys) lv =
     (case load_cells ext xs lv of Inl e \<Rightarrow> Inl e | Inr lv' \<Rightarrow> load_cells ext ys lv')"
  by (induction xs arbitrary: lv) (auto split: sum.splits)

lemma load_row_cells:
  "load_row ext r c row lv = load_cells ext (map (\<lambda>(c, cell). (r, c, cell)) (enumerate c row)) lv"
  by (induction row arbitrary: c lv) (auto split: sum.splits)

lemma cells_Cons:
  "cells r (row # level_map) =
     map (\<lambda>(c, cell). (r, c, cell)) (enumerate 0 row) @ cells (Suc r) level_map"
  by (simp add: cells_def)

lemma load_rows_cells: "load_rows ext r level_map lv = load_cells ext (cells r level_map) lv"
proof (induction level_map arbitrary: r lv)
  case Nil
  then show ?case by (simp add: cells_def)
next
  case (Cons row level_map)
  then show ?case
    by (simp add: cells_Cons load_cells_append load_row_cells split: sum.splits)
qed

lemma positions_simps [simp]:
  "positions ch [] = []"
  "positions ch ((r, c, cell) # cs) =
     (if cell = ch then (r, c) # positions ch cs else positions ch cs)"
  by (simp_all add: positions_def)

lemma trap_cells_simps [simp]:
  "trap_cells [] = []"
  "trap_cells ((r, c, cell) # cs) =
     (if cell = CHR ''T'' \<or> cell = CHR ''t'' then (r, c, cell) # trap_cells cs else trap_cells cs)"
  by (simp_all add: trap_cells_def)

lemma load_cell_other:
  "cell \<noteq> CHR ''P'' \<Longrightarrow>
   load_cell (ext r c) r c cell lv =
     Inr (lv\<lparr>safe_objects := safe_objects lv @
              map (entity_at ext (level_sprite_size lv) Block) (positions (CHR ''B'') [(r, c, cell)]),
            traps := traps lv @ map (trap_at ext (level_sprite_size lv)) (trap_cells [(r, c, cell)]),
            exits := exits lv @
              map (entity_at ext (level_sprite_size lv) LevelExit) (positions (CHR ''E'') [(r, c, cell)])\<rparr>)"
  by (simp add: load_cell_def Let_def entity_at_def trap_at_def)

lemma load_cell_player:
  "load_cell (ext r c) r c (CHR ''P'') lv =
     (if player lv \<noteq> None then Inl only_one_player
      else Inr (lv\<lparr>player := Some (player_at ext (level_sprite_size lv) (r, c))\<rparr>))"
  by (simp add: load_cell_def Let_def only_one_player_def player_at_def)

lemma load_cells_result:
  "load_cells ext cs lv =
     (if (player lv \<noteq> None \<and> positions (CHR ''P'') cs \<noteq> []) \<or> 2 \<le> length (positions (CHR ''P'') cs)
      then Inl only_one_player
      else Inr (lv\<lparr>safe_objects := safe_objects lv @
                      map (entity_at ext (level_sprite_size lv) Block) (positions (CHR ''B'') cs),
                    traps := traps lv @ map (trap_at ext (level_sprite_size lv)) (trap_cells cs),
                    exits := exits lv @
                      map (entity_at ext (level_sprite_size lv) LevelExit) (positions (CHR ''E'') cs),
                    player := (if positions (CHR ''P'') cs = [] then player lv
                               else Some (player_at ext (level_sprite_size lv)
                                            (hd (positions (CHR ''P'') cs))))\<rparr>))"
proof (induction cs arbitrary: lv)
  case Nil
  then show ?case by simp
next
  case (Cons x cs)
  obtain r c cell where x: "x = (r, c, cell)" by (cases x)
  show ?case
  proof (cases "cell = CHR ''P''")
    case True
    then show ?thesis
      unfolding x
      by (simp add: load_cell_player Cons.IH Suc_le_eq)
  next
    case False
    then show ?thesis
      unfolding x
      by (simp add: load_cell_other Cons.IH)
  qed
qed

lemma Level_init_blank: "Level_init ext nm level_map sz = load_map ext level_map (blank_level nm sz)"
  by (simp add: Level_init_def blank_level_def)

lemma topleft_entity_at [simp]: "topleft (entity_at ext sz k (r, c)) = (int c * sz, int r * sz)"
  by (simp add: topleft_def entity_at_def BaseObject_init_def Let_def)

lemma topleft_player_at [simp]: "topleft (player_at ext sz (r, c)) = (int c * sz, int r * sz)"
  by (simp add: topleft_def player_at_def Player_init_def BaseObject_init_def Let_def
      base_object.extend_def)

text \<open>
  C2. A grid with two or more \<open>P\<close> cells: \<^verbatim>\<open>Level.__init__\<close> ends in the
  \<^verbatim>\<open>ValueError\<close> of \<^verbatim>\<open>load_map\<close>, so the caller receives no level.
\<close>

theorem second_player_aborts_load:
  assumes "2 \<le> length (positions (CHR ''P'') (cells 0 level_map))"
  shows "Level_init ext nm level_map sz =
           Inl (ValueError ''You can have only one player on the level. Please check your map.'') \<and>
         (\<forall>lv. Level_init ext nm level_map sz \<noteq> Inr lv)"
  using assms
  by (simp add: Level_init_blank load_map_def load_rows_cells load_cells_result only_one_player_def)

theorem second_player_aborts_load_witness:
  "2 \<le> length (positions (CHR ''P'') (cells 0 [''P.P'', ''BTE''])) \<and>
   Level_init still_world ''Level 1'' [''P.P'', ''BTE''] 32 =
     Inl (ValueError ''You can have only one player on the level. Please check your map.'')"
proof -
  have a: "2 \<le> length (positions (CHR ''P'') (cells 0 [''P.P'', ''BTE'']))" by code_simp
  show ?thesis
    using a second_player_aborts_load [OF a, of still_world "''Level 1''" 32] by simp
qed

text \<open>
  What the code does for every grid without a \<open>P\<close> cell: the scan completes, but
  \<^verbatim>\<open>load_map\<close> then passes the unset player to \<^verbatim>\<open>Group.add\<close>.
\<close>

lemma no_player_grid:
  assumes "positions (CHR ''P'') (cells 0 level_map) = []"
  shows "(\<exists>lv. load_rows ext 0 level_map (blank_level nm sz) = Inr lv \<and>
              player lv = None \<and>
              safe_objects lv = map (entity_at ext sz Block) (positions (CHR ''B'') (cells 0 level_map)) \<and>
              traps lv = map (trap_at ext sz) (trap_cells (cells 0 level_map)) \<and>
              exits lv = map (entity_at ext sz LevelExit) (positions (CHR ''E'') (cells 0 level_map))) \<and>
         Level_init ext nm level_map sz =
           Inl (AttributeError ''NoneType object has no attribute add_internal'')"
  using assms
  by (simp add: Level_init_blank load_map_def load_rows_cells load_cells_result blank_level_def
      group_add_player_def)

text \<open>
  C1. The claim: a grid without a \<open>P\<close> cell loads without error, the player reference
  left unset and the solid, hazard and exit collections filled from the grid. The code
  does not get there. On the grid with the rows \<open>B.E\<close> and \<open>tT\<close> the scan completes, the
  player is unset and the three collections hold the entities of the grid, but
  \<^verbatim>\<open>self.all_objects.add(self.player)\<close> then runs with \<^verbatim>\<open>None\<close> and raises, so
  \<^verbatim>\<open>Level.__init__\<close> returns no level.
\<close>

theorem no_player_load_raises:
  "positions (CHR ''P'') (cells 0 [''B.E'', ''tT'']) = [] \<and>
   (\<exists>lv. load_rows still_world 0 [''B.E'', ''tT''] (blank_level ''Level 1'' 32) = Inr lv \<and>
         player lv = None \<and>
         map topleft (safe_objects lv) = [(0, 0)] \<and>
         map topleft (traps lv) = [(0, 32), (32, 32)] \<and>
         map obj_kind (traps lv) = [BlueFire, Fire] \<and>
         map topleft (exits lv) = [(64, 0)]) \<and>
   Level_init still_world ''Level 1'' [''B.E'', ''tT''] 32 =
     Inl (AttributeError ''NoneType object has no attribute add_internal'')"
proof -
  have a: "positions (CHR ''P'') (cells 0 [''B.E'', ''tT'']) = []" by code_simp
  have b: "map topleft (map (entity_at still_world 32 Block)
             (positions (CHR ''B'') (cells 0 [''B.E'', ''tT'']))) = [(0, 0)]"
    "map topleft (map (trap_at still_world 32) (trap_cells (cells 0 [''B.E'', ''tT'']))) =
       [(0, 32), (32, 32)]"
    "map obj_kind (map (trap_at still_world 32) (trap_cells (cells 0 [''B.E'', ''tT'']))) =
       [BlueFire, Fire]"
    "map topleft (map (entity_at still_world 32 LevelExit)
             (positions (CHR ''E'') (cells 0 [''B.E'', ''tT'']))) = [(64, 0)]"
    by code_simp+
  show ?thesis
    using a b no_player_grid [OF a, of still_world "''Level 1''" 32]
    by auto
qed



end
